theory Spec2Isabelle
  imports Complex_Main "HOL-Library.Monad_Syntax"
begin

section \<open>Python text primitives used by wider2yolo.py\<close>

text \<open>
  A line of the annotation file is a \<^typ>\<open>string\<close>. A \<^typ>\<open>char\<close> stands for a code point
  below 256 (the file after decoding); the helpers below follow Python's \<open>str\<close> methods on
  that range. \<open>readlines()\<close> gives the lines with their terminators, so the model takes a
  list of raw lines and strips each one where the source does.
\<close>

definition isspace :: "char \<Rightarrow> bool" where
  \<comment> \<open>\<open>str.isspace\<close> on one code point below 256: TAB LF VT FF CR, FS GS RS US, SPACE, NEL, NBSP.\<close>
  "isspace c = ((of_char c :: nat) \<in> set [9, 10, 11, 12, 13, 28, 29, 30, 31, 32, 133, 160])"

definition py_strip :: "string \<Rightarrow> string" where
  \<comment> \<open>\<open>s.strip()\<close>\<close>
  "py_strip s = rev (dropWhile isspace (rev (dropWhile isspace s)))"

definition lower_char :: "char \<Rightarrow> char" where
  "lower_char c =
     (let n = (of_char c :: nat)
      in if (65 \<le> n \<and> n \<le> 90) \<or> (192 \<le> n \<and> n \<le> 222 \<and> n \<noteq> 215)
         then char_of (n + 32) else c)"

definition py_lower :: "string \<Rightarrow> string" where
  \<comment> \<open>\<open>s.lower()\<close>\<close>
  "py_lower s = map lower_char s"

definition endswith :: "string \<Rightarrow> string \<Rightarrow> bool" where
  \<comment> \<open>\<open>s.endswith(t)\<close>\<close>
  "endswith s t = (length t \<le> length s \<and> drop (length s - length t) s = t)"

definition startswith :: "string \<Rightarrow> string \<Rightarrow> bool" where
  \<comment> \<open>\<open>s.startswith(t)\<close>\<close>
  "startswith s t = (take (length t) s = t)"

definition is_image_line :: "string \<Rightarrow> bool" where
  \<comment> \<open>\<open>line.lower().endswith(('.jpg', '.jpeg'))\<close>\<close>
  "is_image_line line =
     (endswith (py_lower line) ''.jpg'' \<or> endswith (py_lower line) ''.jpeg'')"

fun split_ws :: "string \<Rightarrow> string \<Rightarrow> string list" where
  "split_ws cur [] = (if cur = [] then [] else [cur])"
| "split_ws cur (c # cs) =
     (if isspace c then (if cur = [] then split_ws [] cs else cur # split_ws [] cs)
      else split_ws (cur @ [c]) cs)"

definition py_split :: "string \<Rightarrow> string list" where
  \<comment> \<open>\<open>s.split()\<close>: the maximal runs of non-whitespace, in order.\<close>
  "py_split s = split_ws [] s"

definition is_digit :: "char \<Rightarrow> bool" where
  "is_digit c = (48 \<le> (of_char c :: nat) \<and> (of_char c :: nat) \<le> 57)"

definition digit_val :: "char \<Rightarrow> nat" where
  "digit_val c = of_char c - 48"

fun parse_digits :: "nat \<Rightarrow> string \<Rightarrow> nat option" where
  \<comment> \<open>Decimal digits, a single underscore allowed between two digits.\<close>
  "parse_digits acc [] = Some acc"
| "parse_digits acc (c # cs) =
     (if is_digit c then parse_digits (10 * acc + digit_val c) cs
      else if c = CHR ''_'' then
        (case cs of
           [] \<Rightarrow> None
         | d # ds \<Rightarrow> if is_digit d then parse_digits (10 * acc + digit_val d) ds else None)
      else None)"

definition int_isspace :: "char \<Rightarrow> bool" where
  \<comment> \<open>The white space that \<open>int\<close> ignores around a number: of the twelve characters of
      \<open>isspace\<close> all but FS, GS, RS and US.\<close>
  "int_isspace c = ((of_char c :: nat) \<in> set [9, 10, 11, 12, 13, 32, 133, 160])"

definition py_int :: "string \<Rightarrow> int option" where
  \<comment> \<open>\<open>int(s)\<close> in base 10; \<open>None\<close> is \<open>ValueError\<close>. Surrounding whitespace is ignored, one
      sign is allowed, then at least one digit. The bound that recent interpreters put on
      the number of digits (4300 unless configured) is left out.\<close>
  "py_int s =
     (let t = rev (dropWhile int_isspace (rev (dropWhile int_isspace s)));
          neg = (case t of [] \<Rightarrow> False | c # _ \<Rightarrow> c = CHR ''-'');
          body = (case t of [] \<Rightarrow> []
                  | c # r \<Rightarrow> if c = CHR ''-'' \<or> c = CHR ''+'' then r else t)
      in case body of
           [] \<Rightarrow> None
         | c # _ \<Rightarrow>
             if is_digit c
             then map_option (\<lambda>n. if neg then - int n else int n) (parse_digits 0 body)
             else None)"

fun str_nat :: "nat \<Rightarrow> string" where
  "str_nat n = (if n < 10 then [char_of (48 + n)] else str_nat (n div 10) @ [char_of (48 + n mod 10)])"

definition str_int :: "int \<Rightarrow> string" where
  \<comment> \<open>\<open>str(n)\<close> for an integer\<close>
  "str_int n = (if n < 0 then CHR ''-'' # str_nat (nat (- n)) else str_nat (nat n))"

section \<open>posixpath\<close>

definition rfind :: "char \<Rightarrow> string \<Rightarrow> int" where
  \<comment> \<open>\<open>s.rfind(c)\<close>: the highest index of \<open>c\<close>, or \<open>-1\<close>.\<close>
  "rfind c s =
     (if c \<in> set s then int (length s) - 1 - int (length (takeWhile (\<lambda>x. x \<noteq> c) (rev s)))
      else - 1)"

definition basename :: "string \<Rightarrow> string" where
  \<comment> \<open>\<open>i = p.rfind('/') + 1; return p[i:]\<close>\<close>
  "basename p = drop (nat (rfind CHR ''/'' p + 1)) p"

definition splitext :: "string \<Rightarrow> string \<times> string" where
  \<comment> \<open>\<open>genericpath._splitext(p, '/', None, '.')\<close>: the last dot of the last component splits,
      unless only dots precede it there.\<close>
  "splitext p =
     (let sepIndex = rfind CHR ''/'' p; dotIndex = rfind CHR ''.'' p
      in if dotIndex > sepIndex \<and>
            list_ex (\<lambda>k. p ! k \<noteq> CHR ''.'') [nat (sepIndex + 1) ..< nat dotIndex]
         then (take (nat dotIndex) p, drop (nat dotIndex) p)
         else (p, []))"

definition join :: "string \<Rightarrow> string \<Rightarrow> string" where
  \<comment> \<open>\<open>os.path.join(a, b)\<close>\<close>
  "join a b =
     (if startswith b ''/'' then b
      else if a = [] \<or> endswith a ''/'' then a @ b
      else a @ ''/'' @ b)"

fun split_sep :: "char \<Rightarrow> string \<Rightarrow> string list" where
  \<comment> \<open>\<open>s.split(c)\<close>\<close>
  "split_sep c [] = [[]]"
| "split_sep c (x # xs) =
     (if x = c then [] # split_sep c xs
      else (case split_sep c xs of [] \<Rightarrow> [[x]] | y # ys \<Rightarrow> (x # y) # ys))"

fun join_sep :: "string list \<Rightarrow> string" where
  \<comment> \<open>\<open>'/'.join(comps)\<close>\<close>
  "join_sep [] = []"
| "join_sep [x] = x"
| "join_sep (x # y # ys) = x @ ''/'' @ join_sep (y # ys)"

fun norm_comps :: "nat \<Rightarrow> string list \<Rightarrow> string list \<Rightarrow> string list" where
  \<comment> \<open>The loop of \<open>normpath\<close> over the components, \<open>new_comps\<close> as accumulator.\<close>
  "norm_comps initial_slashes new_comps [] = new_comps"
| "norm_comps initial_slashes new_comps (part # comps) =
     (if part = [] \<or> part = ''.'' then norm_comps initial_slashes new_comps comps
      else if part \<noteq> ''..'' \<or> (initial_slashes = 0 \<and> new_comps = []) \<or>
              (new_comps \<noteq> [] \<and> last new_comps = ''..'')
      then norm_comps initial_slashes (new_comps @ [part]) comps
      else if new_comps \<noteq> [] then norm_comps initial_slashes (butlast new_comps) comps
      else norm_comps initial_slashes new_comps comps)"

definition normpath :: "string \<Rightarrow> string" where
  \<comment> \<open>\<open>os.path.normpath(path)\<close>\<close>
  "normpath path =
     (if path = [] then ''.''
      else
        let initial_slashes =
              (if startswith path ''/''
               then (if startswith path ''//'' \<and> \<not> startswith path ''///'' then 2 else 1)
               else (0::nat));
            comps = norm_comps initial_slashes [] (split_sep CHR ''/'' path);
            p = replicate initial_slashes CHR ''/'' @ join_sep comps
        in if p = [] then ''.'' else p)"

section \<open>Coordinate converter\<close>

text \<open>
  Python's \<open>/\<close> gives a float and the f-string prints floats with \<open>repr\<close>. The rounding of
  IEEE doubles and the shortest-digits printing are not modelled: the float operations
  that \<open>convert_to_yolo\<close> uses are a parameter of the model, so that what is proved of the
  converter holds for any float arithmetic, and \<open>exact_ops\<close> is the instance that computes
  in the rationals without rounding. The \<open>OverflowError\<close> of an integer too large for a
  float is left out.
\<close>

datatype pyerror = ValueError | ZeroDivisionError | IndexError | OSError

record 'f float_ops =
  int_truediv :: "int \<Rightarrow> int \<Rightarrow> 'f"
  float_of_int :: "int \<Rightarrow> 'f"
  float_add :: "'f \<Rightarrow> 'f \<Rightarrow> 'f"
  float_truediv :: "'f \<Rightarrow> 'f \<Rightarrow> 'f"
  float_str :: "'f \<Rightarrow> string"

definition exact_ops :: "(rat \<Rightarrow> string) \<Rightarrow> rat float_ops" where
  "exact_ops r =
     \<lparr>int_truediv = (\<lambda>a b. of_int a / of_int b), float_of_int = of_int,
      float_add = (+), float_truediv = (/), float_str = r\<rparr>"

definition yolo_fields :: "'f float_ops \<Rightarrow> int list \<Rightarrow> int \<Rightarrow> int \<Rightarrow> pyerror + ('f \<times> 'f \<times> 'f \<times> 'f)" where
  \<comment> \<open>Lines 10 to 14 of \<open>convert_to_yolo\<close>: the unpacking of \<open>bbox\<close> raises unless it has four
      items, a division by a zero dimension raises.\<close>
  "yolo_fields ops bbox img_width img_height =
     (case bbox of
        [xmin, ymin, width, height] \<Rightarrow>
          if img_width = 0 then Inl ZeroDivisionError
          else
            let x_center = float_truediv ops
                  (float_add ops (float_of_int ops xmin) (int_truediv ops width 2))
                  (float_of_int ops img_width)
            in if img_height = 0 then Inl ZeroDivisionError
               else
                 let y_center = float_truediv ops
                       (float_add ops (float_of_int ops ymin) (int_truediv ops height 2))
                       (float_of_int ops img_height);
                     width_norm = int_truediv ops width img_width;
                     height_norm = int_truediv ops height img_height
                 in Inr (x_center, y_center, width_norm, height_norm)
      | _ \<Rightarrow> Inl ValueError)"

definition convert_to_yolo :: "'f float_ops \<Rightarrow> int list \<Rightarrow> int \<Rightarrow> int \<Rightarrow> pyerror + string" where
  "convert_to_yolo ops bbox img_width img_height =
     (case yolo_fields ops bbox img_width img_height of
        Inl e \<Rightarrow> Inl e
      | Inr (x_center, y_center, width_norm, height_norm) \<Rightarrow>
          Inr (''0 '' @ float_str ops x_center @ '' '' @ float_str ops y_center @ '' '' @
               float_str ops width_norm @ '' '' @ float_str ops height_norm))"

section \<open>VOC document builder\<close>

datatype xml = Element string "string option" "xml list"

datatype log_entry =
    UnexpectedLine string
  | NoBoundingBoxes string
  | ExpectedNumber string string
  | NotEnoughLines string int
  | InvalidValues string string
  | IncompleteData string string
  | SkippingImage string
  | InvalidBox "int list"
  | ErrorOpeningImage string
  | ErrorSavingYolo string
  | ErrorCreatingVoc string

definition voc_object :: "int list \<Rightarrow> xml" where
  \<comment> \<open>Lines 43 to 53, for a box of four items.\<close>
  "voc_object bbox =
     Element ''object'' None
       [Element ''name'' (Some ''face'') [],
        Element ''pose'' (Some ''Unspecified'') [],
        Element ''truncated'' (Some ''0'') [],
        Element ''difficult'' (Some ''0'') [],
        Element ''bndbox'' None
          [Element ''xmin'' (Some (str_int (bbox ! 0))) [],
           Element ''ymin'' (Some (str_int (bbox ! 1))) [],
           Element ''xmax'' (Some (str_int (bbox ! 0 + bbox ! 2))) [],
           Element ''ymax'' (Some (str_int (bbox ! 1 + bbox ! 3))) []]]"

fun voc_objects :: "int list list \<Rightarrow> xml list \<times> log_entry list" where
  \<comment> \<open>The loop of lines 38 to 53: the objects appended, and the warnings logged.\<close>
  "voc_objects [] = ([], [])"
| "voc_objects (bbox # bounding_boxes) =
     (let (objs, lg) = voc_objects bounding_boxes
      in if length bbox \<noteq> 4 then (objs, InvalidBox bbox # lg)
         else (voc_object bbox # objs, lg))"

definition voc_annotation :: "string \<Rightarrow> int \<Rightarrow> int \<Rightarrow> xml list \<Rightarrow> string \<Rightarrow> xml" where
  \<comment> \<open>Lines 18 to 35, with the objects of the loop after them.\<close>
  "voc_annotation filename width height objs output_dir =
     Element ''annotation'' None
       ([Element ''folder'' (Some (basename output_dir)) [],
         Element ''filename'' (Some (basename filename)) [],
         Element ''source'' None [Element ''database'' (Some ''WIDER Face'') []],
         Element ''size'' None
           [Element ''width'' (Some (str_int width)) [],
            Element ''height'' (Some (str_int height)) [],
            Element ''depth'' (Some ''3'') []],
         Element ''segmented'' (Some ''0'') []] @ objs)"

definition xml_output_path :: "string \<Rightarrow> string \<Rightarrow> string" where
  \<comment> \<open>Line 56.\<close>
  "xml_output_path output_dir filename =
     join output_dir (fst (splitext (basename filename)) @ ''.xml'')"

definition create_voc_xml ::
    "string \<Rightarrow> int \<Rightarrow> int \<Rightarrow> int list list \<Rightarrow> string \<Rightarrow> string \<times> xml \<times> log_entry list" where
  \<comment> \<open>The path the document is written to, the document, and the warnings logged while it
      is built. The write itself (lines 57 to 59) is done by the caller's \<open>save_voc\<close>, where
      its failure is caught.\<close>
  "create_voc_xml filename width height bounding_boxes output_dir =
     (let (objs, lg) = voc_objects bounding_boxes
      in (xml_output_path output_dir filename,
          voc_annotation filename width height objs output_dir, lg))"

section \<open>Conversion pass\<close>

text \<open>
  The world outside the script is a record: the float arithmetic, what \<open>get_image_size\<close>
  returns for a path (\<open>None\<close> when opening the image raises, which the function turns into
  \<open>(None, None)\<close>), and whether creating the parent directories and opening a path for
  writing succeed. The files written are a map from paths to contents. Only the warnings
  and errors of the log are kept, in order; \<open>info\<close> and \<open>debug\<close> messages are left out.
\<close>

datatype file_content = TextFile string | XmlFile xml

record 'f env =
  arith :: "'f float_ops"
  get_image_size :: "string \<Rightarrow> (int \<times> int) option"
  can_write :: "string \<Rightarrow> bool"

record pstate =
  index :: nat
  yolo_file_count :: nat
  voc_file_count :: nat
  files :: "string \<rightharpoonup> file_content"
  warnings :: "log_entry list"

fun read_boxes ::
    "string list \<Rightarrow> string \<Rightarrow> int \<Rightarrow> nat \<Rightarrow> nat \<Rightarrow> int list list \<Rightarrow> log_entry list
     \<Rightarrow> int list list \<times> nat \<times> log_entry list" where
  \<comment> \<open>The \<open>for _ in range(num_boxes)\<close> loop of lines 177 to 192; the fourth argument counts
      the iterations left. It returns \<open>bounding_boxes\<close>, the new \<open>index\<close> (here \<open>idx\<close>) and the log.\<close>
  "read_boxes lines current_image num_boxes 0 idx bounding_boxes lg =
     (bounding_boxes, idx, lg)"
| "read_boxes lines current_image num_boxes (Suc k) idx bounding_boxes lg =
     (if idx \<ge> length lines
      then (bounding_boxes, idx, lg @ [NotEnoughLines current_image num_boxes])
      else
        let bbox_line = py_strip (lines ! idx);
            bbox_values = py_split bbox_line
        in if length bbox_values \<ge> 4 then
             (case those (map py_int (take 4 bbox_values)) of
                Some bbox \<Rightarrow>
                  read_boxes lines current_image num_boxes k (idx + 1)
                    (bounding_boxes @ [bbox]) lg
              | None \<Rightarrow>
                  read_boxes lines current_image num_boxes k (idx + 1) bounding_boxes
                    (lg @ [InvalidValues bbox_line current_image]))
           else
             read_boxes lines current_image num_boxes k (idx + 1) bounding_boxes
               (lg @ [IncompleteData bbox_line current_image]))"

fun yolo_file_text :: "'f float_ops \<Rightarrow> int list list \<Rightarrow> int \<Rightarrow> int \<Rightarrow> string \<times> pyerror option" where
  \<comment> \<open>The loop of lines 208 to 211: the text written to the file, and the exception that
      stopped the loop, if one did.\<close>
  "yolo_file_text ops [] img_width img_height = ([], None)"
| "yolo_file_text ops (bbox # bounding_boxes) img_width img_height =
     (case convert_to_yolo ops bbox img_width img_height of
        Inl e \<Rightarrow> ([], Some e)
      | Inr yolo_line \<Rightarrow>
          let (rest, err) = yolo_file_text ops bounding_boxes img_width img_height
          in ((if yolo_line \<noteq> [] then yolo_line @ [CHR 0x0A] else []) @ rest, err))"

definition yolo_output_path :: "string \<Rightarrow> string \<Rightarrow> string" where
  \<comment> \<open>Line 204.\<close>
  "yolo_output_path output_yolo_dir normalized_image_path =
     join output_yolo_dir (fst (splitext normalized_image_path) @ ''.txt'')"

definition save_yolo ::
    "'f env \<Rightarrow> string \<Rightarrow> string \<Rightarrow> int list list \<Rightarrow> int \<Rightarrow> int \<Rightarrow> pstate \<Rightarrow> pstate" where
  \<comment> \<open>Lines 204 to 215. When the directories or the file cannot be made nothing is written;
      when a box raises, the file keeps the lines written before it; in both cases the
      error is logged and the count stays.\<close>
  "save_yolo e output_yolo_dir normalized_image_path bounding_boxes img_width img_height st =
     (let path = yolo_output_path output_yolo_dir normalized_image_path
      in if \<not> can_write e path then st\<lparr>warnings := warnings st @ [ErrorSavingYolo path]\<rparr>
         else
           (case yolo_file_text (arith e) bounding_boxes img_width img_height of
              (content, None) \<Rightarrow>
                st\<lparr>files := (files st)(path \<mapsto> TextFile content),
                   yolo_file_count := yolo_file_count st + 1\<rparr>
            | (content, Some err) \<Rightarrow>
                st\<lparr>files := (files st)(path \<mapsto> TextFile content),
                   warnings := warnings st @ [ErrorSavingYolo path]\<rparr>))"

definition save_voc ::
    "'f env \<Rightarrow> string \<Rightarrow> string \<Rightarrow> string \<Rightarrow> int list list \<Rightarrow> int \<Rightarrow> int \<Rightarrow> pstate \<Rightarrow> pstate" where
  \<comment> \<open>Lines 218 to 222 with the write of \<open>create_voc_xml\<close>.\<close>
  "save_voc e output_voc_dir current_image normalized_image_path bounding_boxes
       img_width img_height st =
     (case create_voc_xml normalized_image_path img_width img_height bounding_boxes
             output_voc_dir of
        (path, doc, lg) \<Rightarrow>
          if can_write e path
          then st\<lparr>files := (files st)(path \<mapsto> XmlFile doc),
                  voc_file_count := voc_file_count st + 1,
                  warnings := warnings st @ lg\<rparr>
          else st\<lparr>warnings := warnings st @ lg @ [ErrorCreatingVoc current_image]\<rparr>)"

definition process_image ::
    "'f env \<Rightarrow> string \<Rightarrow> string \<Rightarrow> string \<Rightarrow> string \<Rightarrow> int list list \<Rightarrow> pstate \<Rightarrow> pstate" where
  \<comment> \<open>Lines 194 to 222: the image with its boxes, once they are read.\<close>
  "process_image e output_yolo_dir output_voc_dir image_dir current_image bounding_boxes st =
     (let normalized_image_path = normpath current_image;
          image_path = join image_dir normalized_image_path
      in case get_image_size e image_path of
           None \<Rightarrow>
             st\<lparr>warnings := warnings st @
                  [ErrorOpeningImage image_path, SkippingImage current_image]\<rparr>
         | Some (img_width, img_height) \<Rightarrow>
             save_voc e output_voc_dir current_image normalized_image_path bounding_boxes
               img_width img_height
               (save_yolo e output_yolo_dir normalized_image_path bounding_boxes
                  img_width img_height st))"

definition process_step ::
    "'f env \<Rightarrow> string \<Rightarrow> string \<Rightarrow> string \<Rightarrow> string list \<Rightarrow> pstate \<Rightarrow> pstate" where
  \<comment> \<open>One turn of the \<open>while\<close> loop of lines 154 to 226, entered with \<open>index < total_lines\<close>.
      The \<open>break\<close> of line 163 is taken with \<open>index \<ge> total_lines\<close>, where the loop
      condition ends the loop as well.\<close>
  "process_step e output_yolo_dir output_voc_dir image_dir lines st =
     (let line = py_strip (lines ! index st)
      in if is_image_line line then
           let current_image = line;
               i1 = index st + 1
           in if i1 \<ge> length lines
              then st\<lparr>index := i1, warnings := warnings st @ [NoBoundingBoxes current_image]\<rparr>
              else
                let num_boxes_line = py_strip (lines ! i1)
                in case py_int num_boxes_line of
                     None \<Rightarrow>
                       st\<lparr>index := i1 + 1,
                          warnings := warnings st @
                            [ExpectedNumber current_image num_boxes_line]\<rparr>
                   | Some num_boxes \<Rightarrow>
                       (case read_boxes lines current_image num_boxes (nat num_boxes)
                               (i1 + 1) [] [] of
                          (bounding_boxes, i2, lg) \<Rightarrow>
                            process_image e output_yolo_dir output_voc_dir image_dir
                              current_image bounding_boxes
                              (st\<lparr>index := i2, warnings := warnings st @ lg\<rparr>))
         else st\<lparr>index := index st + 1, warnings := warnings st @ [UnexpectedLine line]\<rparr>)"

text \<open>
  What the box loop does to one line, and the loop in closed form: it reads the next
  \<open>k\<close> lines, or the lines that are left when they are fewer.
\<close>

definition parse_box :: "string \<Rightarrow> int list option" where
  \<comment> \<open>Lines 181 to 191 on one line: the box appended, or \<open>None\<close> when the line is dropped.\<close>
  "parse_box l =
     (let bbox_values = py_split (py_strip l)
      in if length bbox_values \<ge> 4 then those (map py_int (take 4 bbox_values)) else None)"

definition box_warning :: "string \<Rightarrow> string \<Rightarrow> log_entry list" where
  \<comment> \<open>The warning of lines 189 and 191 for one line, if it is dropped.\<close>
  "box_warning current_image l =
     (let bbox_line = py_strip l; bbox_values = py_split bbox_line
      in if length bbox_values \<ge> 4 then
           (case those (map py_int (take 4 bbox_values)) of
              Some bbox \<Rightarrow> []
            | None \<Rightarrow> [InvalidValues bbox_line current_image])
         else [IncompleteData bbox_line current_image])"

lemma read_boxes_eq:
  "read_boxes lines img nb k i bs lg =
     (bs @ List.map_filter parse_box (take k (drop i lines)),
      i + min k (length lines - i),
      lg @ concat (map (box_warning img) (take k (drop i lines))) @
        (if length lines - i < k then [NotEnoughLines img nb] else []))"
proof (induction k arbitrary: i bs lg)
  case 0
  show ?case by (simp add: List.map_filter_simps)
next
  case (Suc k)
  show ?case
  proof (cases "length lines \<le> i")
    case True
    then show ?thesis by (simp add: List.map_filter_simps)
  next
    case False
    then have i: "i < length lines" by simp
    then have d: "drop i lines = lines ! i # drop (Suc i) lines"
      by (simp add: Cons_nth_drop_Suc)
    have m: "min (Suc k) (length lines - i) = Suc (min k (length lines - Suc i))"
      using i by (auto simp: min_def)
    have lt: "(length lines - i < Suc k) = (length lines - Suc i < k)"
      using i by auto
    show ?thesis
      using i
      by (simp add: Suc.IH d m lt parse_box_def box_warning_def Let_def
            List.map_filter_simps split: option.splits)
  qed
qed

lemma read_boxes_index_ge:
  "read_boxes lines img nb k i bs lg = (bs', i', lg') \<Longrightarrow> i \<le> i'"
  by (simp add: read_boxes_eq)

lemma save_yolo_index [simp]: "index (save_yolo e oy np bs w h st) = index st"
  by (simp add: save_yolo_def Let_def split: prod.splits option.splits)

lemma save_voc_index [simp]: "index (save_voc e ov ci np bs w h st) = index st"
  by (simp add: save_voc_def split: prod.splits)

lemma process_image_index [simp]: "index (process_image e oy ov idir ci bs st) = index st"
  by (simp add: process_image_def Let_def split: option.splits prod.splits)

lemma process_step_index_less: "index st < index (process_step e oy ov idir lines st)"
  by (auto simp: process_step_def Let_def split: option.splits prod.splits
           dest: read_boxes_index_ge)

function process_loop ::
    "'f env \<Rightarrow> string \<Rightarrow> string \<Rightarrow> string \<Rightarrow> string list \<Rightarrow> pstate \<Rightarrow> pstate" where
  "process_loop e output_yolo_dir output_voc_dir image_dir lines st =
     (if index st < length lines
      then process_loop e output_yolo_dir output_voc_dir image_dir lines
             (process_step e output_yolo_dir output_voc_dir image_dir lines st)
      else st)"
  by pat_completeness auto
termination
proof (relation "measure (\<lambda>(e, oy, ov, idir, lines, st). length lines - index st)")
  show "wf (measure (\<lambda>(e, oy, ov, idir, lines, st). length lines - index st))"
    by simp
next
  fix e :: "'f env" and oy ov idir :: string and lines :: "string list" and st :: pstate
  assume "index st < length lines"
  moreover have "index st < index (process_step e oy ov idir lines st)"
    by (rule process_step_index_less)
  ultimately show "((e, oy, ov, idir, lines, process_step e oy ov idir lines st),
                    (e, oy, ov, idir, lines, st))
                   \<in> measure (\<lambda>(e, oy, ov, idir, lines, st). length lines - index st)"
    by simp
qed

declare process_loop.simps [simp del]

definition process_annotations ::
    "'f env \<Rightarrow> string list \<Rightarrow> string \<Rightarrow> string \<Rightarrow> string \<Rightarrow> (string \<rightharpoonup> file_content) \<Rightarrow> pstate" where
  \<comment> \<open>\<open>process_annotations\<close> on the lines read from \<open>file_path\<close>, started on the files
      \<open>fs\<close>; the summary of line 229 reads the two counts of the result.\<close>
  "process_annotations e lines output_yolo_dir output_voc_dir image_dir fs =
     process_loop e output_yolo_dir output_voc_dir image_dir lines
       \<lparr>index = 0, yolo_file_count = 0, voc_file_count = 0, files = fs, warnings = []\<rparr>"

section \<open>Filter pass\<close>

text \<open>
  In \<open>filter_annotations\<close> the index is moved by \<open>1 + num_boxes\<close> for a missing image,
  whatever the sign of \<open>num_boxes\<close>, so it is an integer that can go down. Python reads
  a list at a negative index from its end and raises \<open>IndexError\<close> outside
  \<open>-len \<le> i < len\<close>; the loop can also come back to a line it has left, so it is a
  partial function: \<open>None\<close> is a run that never ends, \<open>Some (Inl e)\<close> one that raises.
\<close>

definition py_get :: "'a list \<Rightarrow> int \<Rightarrow> 'a option" where
  \<comment> \<open>\<open>xs[i]\<close>; \<open>None\<close> is \<open>IndexError\<close>.\<close>
  "py_get xs i =
     (if 0 \<le> i \<and> i < int (length xs) then Some (xs ! nat i)
      else if - int (length xs) \<le> i \<and> i < 0 then Some (xs ! nat (int (length xs) + i))
      else None)"

record fstate =
  f_index :: int
  filtered_lines :: "string list"
  missing_images :: "string list"
  processed_images :: nat
  f_warnings :: "log_entry list"

fun copy_boxes ::
    "string list \<Rightarrow> string \<Rightarrow> int \<Rightarrow> nat \<Rightarrow> int \<Rightarrow> string list \<Rightarrow> log_entry list
     \<Rightarrow> pyerror + (int \<times> string list \<times> log_entry list)" where
  \<comment> \<open>The \<open>for _ in range(num_boxes)\<close> loop of lines 106 to 112; the fourth argument counts
      the iterations left. It returns the new \<open>index\<close>, \<open>filtered_lines\<close> and the log.\<close>
  "copy_boxes lines current_image num_boxes 0 idx filtered lg = Inr (idx, filtered, lg)"
| "copy_boxes lines current_image num_boxes (Suc k) idx filtered lg =
     (if idx \<ge> int (length lines)
      then Inr (idx, filtered, lg @ [NotEnoughLines current_image num_boxes])
      else
        (case py_get lines idx of
           None \<Rightarrow> Inl IndexError
         | Some raw \<Rightarrow>
             let bbox_line = py_strip raw
             in copy_boxes lines current_image num_boxes k (idx + 1)
                  (filtered @ [bbox_line @ [CHR 0x0A]]) lg))"

definition filter_step ::
    "(string \<Rightarrow> bool) \<Rightarrow> string \<Rightarrow> string list \<Rightarrow> fstate \<Rightarrow> pyerror + fstate" where
  \<comment> \<open>One turn of the \<open>while\<close> loop of lines 82 to 127, entered with \<open>index < total_lines\<close>;
      \<open>path_exists\<close> is \<open>os.path.exists\<close>. The \<open>break\<close>s of lines 92 and 118 are taken with
      \<open>index \<ge> total_lines\<close>, where the loop condition ends the loop as well.\<close>
  "filter_step path_exists image_dir lines st =
     (case py_get lines (f_index st) of
        None \<Rightarrow> Inl IndexError
      | Some raw \<Rightarrow>
          let line = py_strip raw
          in if is_image_line line then
               let current_image = line;
                   image_path = normpath (join image_dir current_image);
                   i1 = f_index st + 1
               in if path_exists image_path then
                    let filtered = filtered_lines st @ [line @ [CHR 0x0A]]
                    in if i1 \<ge> int (length lines)
                       then Inr (st\<lparr>f_index := i1, filtered_lines := filtered,
                                   f_warnings := f_warnings st @
                                     [NoBoundingBoxes current_image]\<rparr>)
                       else
                         (case py_get lines i1 of
                            None \<Rightarrow> Inl IndexError
                          | Some raw1 \<Rightarrow>
                              (let num_boxes_line = py_strip raw1
                               in (case py_int num_boxes_line of
                                     None \<Rightarrow>
                                       Inr (st\<lparr>f_index := i1 + 1, filtered_lines := filtered,
                                              f_warnings := f_warnings st @
                                                [ExpectedNumber current_image num_boxes_line]\<rparr>)
                                   | Some num_boxes \<Rightarrow>
                                       (case copy_boxes lines current_image num_boxes
                                               (nat num_boxes) (i1 + 1)
                                               (filtered @ [num_boxes_line @ [CHR 0x0A]])
                                               (f_warnings st) of
                                          Inl err \<Rightarrow> Inl err
                                        | Inr (i2, filtered2, lg) \<Rightarrow>
                                            Inr (st\<lparr>f_index := i2, filtered_lines := filtered2,
                                                   processed_images := processed_images st + 1,
                                                   f_warnings := lg\<rparr>)))))
                  else
                    let missing = missing_images st @ [current_image]
                    in if i1 \<ge> int (length lines)
                       then Inr (st\<lparr>f_index := i1, missing_images := missing\<rparr>)
                       else
                         (case py_get lines i1 of
                            None \<Rightarrow> Inl IndexError
                          | Some raw1 \<Rightarrow>
                              (case py_int (py_strip raw1) of
                                 Some num_boxes \<Rightarrow>
                                   Inr (st\<lparr>f_index := i1 + (1 + num_boxes),
                                          missing_images := missing\<rparr>)
                               | None \<Rightarrow>
                                   Inr (st\<lparr>f_index := i1 + 1, missing_images := missing\<rparr>)))
             else Inr (st\<lparr>f_index := f_index st + 1,
                         f_warnings := f_warnings st @ [UnexpectedLine line]\<rparr>))"

partial_function (option) filter_loop ::
    "(string \<Rightarrow> bool) \<Rightarrow> string \<Rightarrow> string list \<Rightarrow> fstate \<Rightarrow> (pyerror + fstate) option" where
  "filter_loop path_exists image_dir lines st =
     (if f_index st < int (length lines)
      then (case filter_step path_exists image_dir lines st of
              Inl err \<Rightarrow> Some (Inl err)
            | Inr st' \<Rightarrow> filter_loop path_exists image_dir lines st')
      else Some (Inr st))"

declare filter_loop.simps [code]

definition filter_annotations ::
    "(string \<Rightarrow> bool) \<Rightarrow> string list \<Rightarrow> string \<Rightarrow> (pyerror + fstate) option" where
  \<comment> \<open>\<open>filter_annotations\<close> on the lines read from \<open>file_path\<close>. In the state it returns,
      \<open>filtered_lines\<close> is what line 131 writes to \<open>output_annotations_file\<close>, and the summary
      logs \<open>processed_images\<close> and the length of \<open>missing_images\<close>.\<close>
  "filter_annotations path_exists lines image_dir =
     filter_loop path_exists image_dir lines
       \<lparr>f_index = 0, filtered_lines = [], missing_images = [], processed_images = 0,
        f_warnings = []\<rparr>"

section \<open>Definitions that follow the specification\<close>


definition show_rat :: "rat \<Rightarrow> string" where
  \<comment> \<open>A printer of rationals for the worked examples; it stands in for the \<open>repr\<close> of a
      float, which is not modelled.\<close>
  "show_rat q = (case quotient_of q of (n, d) \<Rightarrow> str_int n @ ''/'' @ str_int d)"

definition dropped_line :: "string \<Rightarrow> bool" where
  \<comment> \<open>Section 4.1 of the specification: a box line is dropped when it has fewer than four
      tokens separated by white space, or one of its first four tokens is not an integer.\<close>
  "dropped_line l =
     (let tokens = py_split l
      in length tokens < 4 \<or> list_ex (\<lambda>t. py_int t = None) (take 4 tokens))"

definition voc_path_spec :: "string \<Rightarrow> string \<Rightarrow> string" where
  \<comment> \<open>Section 6 of the specification: the VOC file of an image is at
      \<open><outputVocDir>/<imageRelativeStemPath>.xml\<close>, the relative path of the image with its
      extension replaced, as line 204 builds the path of the YOLO file.\<close>
  "voc_path_spec output_voc_dir p = join output_voc_dir (fst (splitext (normpath p)) @ ''.xml'')"

section \<open>Records of the filter pass\<close>





section \<open>Names for the parts of one record, and a small world for the examples\<close>

text \<open>
  For a record whose image line is at \<open>i\<close> and whose count line gives \<open>n\<close>, the values of
  \<open>bounding_boxes\<close> and \<open>index\<close> after the box loop, and the warnings the loop logs.
\<close>

definition record_boxes :: "string list \<Rightarrow> nat \<Rightarrow> int \<Rightarrow> int list list" where
  "record_boxes lines i n =
     fst (read_boxes lines (py_strip (lines ! i)) n (nat n) (i + 2) [] [])"

definition record_end :: "string list \<Rightarrow> nat \<Rightarrow> int \<Rightarrow> nat" where
  "record_end lines i n =
     fst (snd (read_boxes lines (py_strip (lines ! i)) n (nat n) (i + 2) [] []))"

definition record_warnings :: "string list \<Rightarrow> nat \<Rightarrow> int \<Rightarrow> log_entry list" where
  "record_warnings lines i n =
     snd (snd (read_boxes lines (py_strip (lines ! i)) n (nat n) (i + 2) [] []))"

definition demo_env :: "rat env" where
  \<comment> \<open>One image of 1024 by 683 pixels under \<open>images\<close>; every write succeeds.\<close>
  "demo_env =
     \<lparr>arith = exact_ops show_rat,
      get_image_size =
        (\<lambda>p. if p = ''images/0--Parade/0_Parade_marchingband_1_849.jpg''
             then Some (1024, 683) else None),
      can_write = (\<lambda>p. True)\<rparr>"

definition demo_start :: pstate where
  \<comment> \<open>The state in which \<open>process_annotations\<close> enters its loop, with no file written yet.\<close>
  "demo_start =
     \<lparr>index = 0, yolo_file_count = 0, voc_file_count = 0, files = Map.empty, warnings = []\<rparr>"

definition demo_lines :: "string list" where
  \<comment> \<open>A record of three box lines, the second with three tokens only, and a second record.\<close>
  "demo_lines = [''a.jpg'', ''3'', ''1 2 3 4'', ''1 2 3'', ''5 6 7 8 0 0'', ''b.jpg'', ''0'']"

definition truncated_lines :: "string list" where
  \<comment> \<open>The image of \<open>demo_env\<close> in a file that ends after two of the five box lines it
      declares.\<close>
  "truncated_lines =
     [''0--Parade/0_Parade_marchingband_1_849.jpg'', ''5'', ''449 330 122 149'', ''1 2 3 4'']"

definition bad_count_lines :: "string list" where
  \<comment> \<open>An image line followed by a line that is no integer.\<close>
  "bad_count_lines = [''c.jpg'', ''x'', ''1 2 3 4'']"

definition negative_count_lines :: "string list" where
  \<comment> \<open>The image of \<open>demo_env\<close> with a negative count.\<close>
  "negative_count_lines = [''0--Parade/0_Parade_marchingband_1_849.jpg'', ''-3'', ''449 330 122 149'']"

definition unreadable_lines :: "string list" where
  \<comment> \<open>A record whose image \<open>demo_env\<close> cannot open, then the record of its one image.\<close>
  "unreadable_lines =
     [''b.jpg'', ''1'', ''1 2 3 4'', ''0--Parade/0_Parade_marchingband_1_849.jpg'', ''0'']"

definition empty_record_lines :: "string list" where
  \<comment> \<open>The image of \<open>demo_env\<close> with no box.\<close>
  "empty_record_lines = [''0--Parade/0_Parade_marchingband_1_849.jpg'', ''0'']"

definition parade_lines :: "string list" where
  \<comment> \<open>The record of the end-to-end scenario of section 8 of the specification.\<close>
  "parade_lines = [''0--Parade/0_Parade_marchingband_1_849.jpg'', ''1'', ''449 330 122 149'']"

definition demo_exists :: "string \<Rightarrow> bool" where
  \<comment> \<open>The disk of the examples: the one image of \<open>demo_env\<close> exists.\<close>
  "demo_exists p = (p = ''images/0--Parade/0_Parade_marchingband_1_849.jpg'')"



definition bad_filter_lines :: "string list" where
  \<comment> \<open>The existing image with a count line that is no integer, then a missing image.\<close>
  "bad_filter_lines =
     [''0--Parade/0_Parade_marchingband_1_849.jpg\<newline>'', ''x\<newline>'', ''b.jpg\<newline>'',
      ''0\<newline>'']"

definition filter_start :: fstate where
  \<comment> \<open>The state in which \<open>filter_annotations\<close> enters its loop.\<close>
  "filter_start =
     \<lparr>f_index = 0, filtered_lines = [], missing_images = [], processed_images = 0,
      f_warnings = []\<rparr>"

section \<open>The coordinate converter: claims C1 and C4\<close>

lemma isspace_space: "isspace CHR '' ''"
  by (simp add: isspace_def)

lemma split_ws_token:
  "list_all (\<lambda>c. \<not> isspace c) a \<Longrightarrow> split_ws cur (a @ rest) = split_ws (cur @ a) rest"
  by (induction a arbitrary: cur) simp_all

lemma split_ws_space:
  "cur \<noteq> [] \<Longrightarrow> split_ws cur (CHR '' '' # rest) = cur # split_ws [] rest"
  by (simp add: isspace_space)

lemma split_ws_last:
  "list_all (\<lambda>c. \<not> isspace c) a \<Longrightarrow> a \<noteq> [] \<Longrightarrow> split_ws [] a = [a]"
  using split_ws_token [of a "[]" "[]"] by simp

lemma py_split_five:
  assumes "list_all (\<lambda>s. s \<noteq> [] \<and> list_all (\<lambda>c. \<not> isspace c) s) [a, b, c, d, e]"
  shows "py_split (a @ '' '' @ b @ '' '' @ c @ '' '' @ d @ '' '' @ e) = [a, b, c, d, e]"
  using assms
  by (simp add: py_split_def split_ws_token split_ws_space split_ws_last del: split_ws.simps)



text \<open>
  The line has five fields when the printer of floats gives non-empty text without white
  space, as \<open>repr\<close> does.
\<close>

lemma convert_to_yolo_tokens:
  assumes "convert_to_yolo ops bbox img_width img_height = Inr yolo_line"
    and "\<And>x. float_str ops x \<noteq> [] \<and> list_all (\<lambda>c. \<not> isspace c) (float_str ops x)"
  shows "length (py_split yolo_line) = 5 \<and> py_split yolo_line ! 0 = ''0''"
proof -
  from assms(1) obtain xc yc wn hn where
    y: "yolo_line = ''0'' @ '' '' @ float_str ops xc @ '' '' @ float_str ops yc @ '' '' @
                 float_str ops wn @ '' '' @ float_str ops hn"
    by (cases "yolo_fields ops bbox img_width img_height")
       (auto simp: convert_to_yolo_def)
  have "list_all (\<lambda>c. \<not> isspace c) ''0''"
    by (simp add: isspace_def)
  then have
    "list_all (\<lambda>s. s \<noteq> [] \<and> list_all (\<lambda>c. \<not> isspace c) s)
       [''0'', float_str ops xc, float_str ops yc, float_str ops wn, float_str ops hn]"
    using assms(2) by simp
  then have "py_split yolo_line =
      [''0'', float_str ops xc, float_str ops yc, float_str ops wn, float_str ops hn]"
    unfolding y by (rule py_split_five)
  then show ?thesis by simp
qed





section \<open>The box loop of the conversion pass\<close>

lemma split_ws_dropWhile: "split_ws [] (dropWhile isspace s) = split_ws [] s"
  by (induction s) simp_all

lemma split_ws_snoc_space: "isspace x \<Longrightarrow> split_ws cur (xs @ [x]) = split_ws cur xs"
  by (induction xs arbitrary: cur) simp_all

lemma split_ws_rstrip: "split_ws cur (rev (dropWhile isspace (rev s))) = split_ws cur s"
  by (induction s rule: rev_induct) (simp_all add: split_ws_snoc_space)

lemma py_split_strip: "py_split (py_strip l) = py_split l"
  by (simp add: py_split_def py_strip_def split_ws_rstrip split_ws_dropWhile)

lemma those_map_None: "those (map f xs) = None \<longleftrightarrow> list_ex (\<lambda>x. f x = None) xs"
  by (induction xs) (auto split: option.splits)

lemma parse_box_None: "parse_box l = None \<longleftrightarrow> dropped_line l"
  by (simp add: parse_box_def dropped_line_def py_split_strip Let_def those_map_None
        not_le)

lemma length_map_filter:
  "length (List.map_filter f xs) = length xs - length (filter (\<lambda>x. f x = None) xs)"
proof (induction xs)
  case Nil
  show ?case by (simp add: List.map_filter_simps)
next
  case (Cons x xs)
  have "length (filter (\<lambda>x. f x = None) xs) \<le> length xs" by simp
  with Cons show ?case
    by (cases "f x") (simp_all add: List.map_filter_simps Suc_diff_le)
qed

lemma record_boxes_eq:
  "record_boxes lines i n = List.map_filter parse_box (take (nat n) (drop (i + 2) lines))"
  by (simp add: record_boxes_def read_boxes_eq)

lemma record_end_eq:
  "record_end lines i n = i + 2 + min (nat n) (length lines - (i + 2))"
  by (simp add: record_end_def read_boxes_eq)

lemma record_warnings_eq:
  "record_warnings lines i n =
     concat (map (box_warning (py_strip (lines ! i))) (take (nat n) (drop (i + 2) lines))) @
     (if length lines - (i + 2) < nat n then [NotEnoughLines (py_strip (lines ! i)) n] else [])"
  by (simp add: record_warnings_def read_boxes_eq)

lemma process_step_record:
  assumes "is_image_line (py_strip (lines ! index st))"
    and "index st + 1 < length lines"
    and "py_int (py_strip (lines ! (index st + 1))) = Some n"
  shows "process_step e oy ov idir lines st =
           process_image e oy ov idir (py_strip (lines ! index st))
             (record_boxes lines (index st) n)
             (st\<lparr>index := record_end lines (index st) n,
                 warnings := warnings st @ record_warnings lines (index st) n\<rparr>)"
  using assms
  by (simp add: process_step_def Let_def record_boxes_def record_end_def
        record_warnings_def split: prod.splits)

lemma take_min_length: "take (min k (length xs)) xs = take k xs"
  by (cases "k \<le> length xs") (simp_all add: min_def)

lemma filter_parse_box_None: "filter (\<lambda>l. parse_box l = None) ls = filter dropped_line ls"
  by (simp add: parse_box_None)

text \<open>
  Claim C2, as amended. For a record whose count line parses to \<open>n\<close>, the box loop
  consumes \<open>m\<close> lines, the smaller of \<open>n\<close> (zero when \<open>n\<close> is negative) and the number of
  lines left after the count line; when \<open>n\<close> is not negative and \<open>n\<close> lines are left,
  \<open>m\<close> is \<open>n\<close>. A malformed line is consumed like any other. The list of boxes has
  \<open>m\<close> items less the dropped lines among those \<open>m\<close>, a line being dropped exactly when
  it has fewer than four tokens or one of its first four tokens is not an integer.
\<close>

theorem process_step_box_count:
  assumes "is_image_line (py_strip (lines ! index st))"
    and "index st + 1 < length lines"
    and "py_int (py_strip (lines ! (index st + 1))) = Some n"
  shows "let m = min (nat n) (length lines - (index st + 2))
         in index (process_step e oy ov idir lines st) = index st + 2 + m \<and>
            length (record_boxes lines (index st) n) =
              m - length (filter dropped_line (take m (drop (index st + 2) lines))) \<and>
            (0 \<le> n \<and> index st + 2 + nat n \<le> length lines \<longrightarrow> int m = n)"
proof -
  define m where "m = min (nat n) (length lines - (index st + 2))"
  have t: "take (nat n) (drop (index st + 2) lines) = take m (drop (index st + 2) lines)"
    using take_min_length [of "nat n" "drop (index st + 2) lines"] by (simp add: m_def)
  have lt: "length (take m (drop (index st + 2) lines)) = m"
    by (simp add: m_def)
  have 1: "index (process_step e oy ov idir lines st) = index st + 2 + m"
    by (simp add: process_step_record [OF assms] record_end_eq m_def)
  have 2: "length (record_boxes lines (index st) n) =
             m - length (filter dropped_line (take m (drop (index st + 2) lines)))"
    unfolding record_boxes_eq t length_map_filter filter_parse_box_None lt ..
  have 3: "0 \<le> n \<and> index st + 2 + nat n \<le> length lines \<longrightarrow> int m = n"
    by (auto simp: m_def min_def)
  from 1 2 3 show ?thesis
    unfolding Let_def m_def by blast
qed


theorem process_step_box_count_witness:
  "is_image_line (py_strip (demo_lines ! index demo_start)) \<and>
   index demo_start + 1 < length demo_lines \<and>
   py_int (py_strip (demo_lines ! (index demo_start + 1))) = Some 3 \<and>
   index (process_step demo_env ''output/yolo'' ''output/voc'' ''images'' demo_lines demo_start)
     = 5 \<and>
   length (record_boxes demo_lines (index demo_start) 3) = 3 - 1"
proof -
  have h1: "is_image_line (py_strip (demo_lines ! index demo_start))"
    by code_simp
  have h2: "index demo_start + 1 < length demo_lines"
    by (simp add: demo_start_def demo_lines_def)
  have h3: "py_int (py_strip (demo_lines ! (index demo_start + 1))) = Some 3"
    by code_simp
  have m: "min (nat 3) (length demo_lines - (index demo_start + 2)) = 3"
    by (simp add: demo_start_def demo_lines_def)
  have i: "index demo_start = 0"
    by (simp add: demo_start_def)
  have d: "length (filter dropped_line
                 (take 3 (drop (index demo_start + 2) demo_lines))) = 1"
    by code_simp
  from process_step_box_count [OF h1 h2 h3, of demo_env "''output/yolo''" "''output/voc''" "''images''"]
  have "index (process_step demo_env ''output/yolo'' ''output/voc'' ''images'' demo_lines
                 demo_start) = 5 \<and>
        length (record_boxes demo_lines (index demo_start) 3) = 3 - 1"
    unfolding Let_def m d by (simp add: i)
  with h1 h2 h3 show ?thesis by blast
qed

text \<open>
  The claim as stated fails where the file ends early: five boxes are declared, two lines
  are left, and the parser consumes two lines and keeps two boxes, none being dropped.
\<close>

theorem process_step_box_count_counterexample:
  "is_image_line (py_strip (truncated_lines ! 0)) \<and>
   py_int (py_strip (truncated_lines ! 1)) = Some 5 \<and>
   index (process_step demo_env ''output/yolo'' ''output/voc'' ''images'' truncated_lines
            demo_start) = 4 \<and>
   int (index (process_step demo_env ''output/yolo'' ''output/voc'' ''images'' truncated_lines
            demo_start)) - 2 \<noteq> 5 \<and>
   record_boxes truncated_lines 0 5 = [[449, 330, 122, 149], [1, 2, 3, 4]] \<and>
   filter dropped_line (drop 2 truncated_lines) = [] \<and>
   int (length (record_boxes truncated_lines 0 5)) \<noteq>
     5 - int (length (filter dropped_line (drop 2 truncated_lines)))"
proof -
  have 1: "is_image_line (py_strip (truncated_lines ! 0))" by code_simp
  have 2: "py_int (py_strip (truncated_lines ! 1)) = Some 5" by code_simp
  have 3: "index (process_step demo_env ''output/yolo'' ''output/voc'' ''images''
             truncated_lines demo_start) = 4"
    by code_simp
  have 4: "record_boxes truncated_lines 0 5 = [[449, 330, 122, 149], [1, 2, 3, 4]]" by code_simp
  have 5: "filter dropped_line (drop 2 truncated_lines) = []" by code_simp
  show ?thesis
    unfolding 3 4 5 using 1 2 by simp
qed

section \<open>Records of the conversion pass: claims C6 to C9 and C3\<close>

lemma record_negative:
  assumes "n \<le> 0"
  shows "record_boxes lines i n = []" and "record_end lines i n = i + 2"
    and "record_warnings lines i n = []"
  using assms
  by (simp_all add: record_boxes_eq record_end_eq record_warnings_eq List.map_filter_simps)

text \<open>
  Claim C6, as amended. When the line after an image line does not parse as an integer,
  the parser logs a warning, moves past that one line only, writes nothing and counts
  nothing for the record, and scans for the next image line from the line after. A
  negative integer does parse: no warning is logged, the box loop reads no line, and the
  image is processed as a record without boxes.
\<close>

theorem process_step_bad_count:
  assumes "is_image_line (py_strip (lines ! index st))"
    and "index st + 1 < length lines"
  shows "(py_int (py_strip (lines ! (index st + 1))) = None \<longrightarrow>
            process_step e oy ov idir lines st =
              st\<lparr>index := index st + 2,
                 warnings := warnings st @
                   [ExpectedNumber (py_strip (lines ! index st))
                      (py_strip (lines ! (index st + 1)))]\<rparr>) \<and>
         (\<forall>n. py_int (py_strip (lines ! (index st + 1))) = Some n \<and> n < 0 \<longrightarrow>
            process_step e oy ov idir lines st =
              process_image e oy ov idir (py_strip (lines ! index st)) []
                (st\<lparr>index := index st + 2\<rparr>))"
proof (intro conjI impI allI)
  assume "py_int (py_strip (lines ! (index st + 1))) = None"
  with assms show "process_step e oy ov idir lines st =
      st\<lparr>index := index st + 2,
         warnings := warnings st @
           [ExpectedNumber (py_strip (lines ! index st)) (py_strip (lines ! (index st + 1)))]\<rparr>"
    by (simp add: process_step_def Let_def)
next
  fix n
  assume "py_int (py_strip (lines ! (index st + 1))) = Some n \<and> n < 0"
  then have n: "py_int (py_strip (lines ! (index st + 1))) = Some n" and "n \<le> 0"
    by simp_all
  then show "process_step e oy ov idir lines st =
      process_image e oy ov idir (py_strip (lines ! index st)) [] (st\<lparr>index := index st + 2\<rparr>)"
    by (simp add: process_step_record [OF assms n] record_negative)
qed

theorem process_step_bad_count_witness:
  "is_image_line (py_strip (bad_count_lines ! index demo_start)) \<and>
   index demo_start + 1 < length bad_count_lines \<and>
   py_int (py_strip (bad_count_lines ! (index demo_start + 1))) = None \<and>
   process_step demo_env ''output/yolo'' ''output/voc'' ''images'' bad_count_lines demo_start =
     demo_start\<lparr>index := 2, warnings := [ExpectedNumber ''c.jpg'' ''x'']\<rparr>"
proof -
  have h1: "is_image_line (py_strip (bad_count_lines ! index demo_start))"
    by code_simp
  have h2: "index demo_start + 1 < length bad_count_lines"
    by (simp add: demo_start_def bad_count_lines_def)
  have h3: "py_int (py_strip (bad_count_lines ! (index demo_start + 1))) = None"
    by code_simp
  have s0: "py_strip (bad_count_lines ! index demo_start) = ''c.jpg''"
    by code_simp
  have s1: "py_strip (bad_count_lines ! (index demo_start + 1)) = ''x''"
    by code_simp
  from process_step_bad_count [OF h1 h2, of demo_env "''output/yolo''" "''output/voc''" "''images''"] h3
  have "process_step demo_env ''output/yolo'' ''output/voc'' ''images'' bad_count_lines
          demo_start =
        demo_start\<lparr>index := 2, warnings := [ExpectedNumber ''c.jpg'' ''x'']\<rparr>"
    unfolding s0 s1 by (simp add: demo_start_def)
  with h1 h2 h3 show ?thesis by blast
qed

text \<open>
  The claim as stated fails for a negative count: for \<open>-3\<close> no warning is logged, and an
  empty YOLO file and a VOC document are written for the image.
\<close>

theorem process_step_bad_count_counterexample:
  "is_image_line (py_strip (negative_count_lines ! 0)) \<and>
   py_int (py_strip (negative_count_lines ! 1)) = Some (- 3) \<and>
   warnings (process_step demo_env ''output/yolo'' ''output/voc'' ''images''
               negative_count_lines demo_start) = [] \<and>
   index (process_step demo_env ''output/yolo'' ''output/voc'' ''images''
               negative_count_lines demo_start) = 2 \<and>
   yolo_file_count (process_step demo_env ''output/yolo'' ''output/voc'' ''images''
               negative_count_lines demo_start) = 1 \<and>
   voc_file_count (process_step demo_env ''output/yolo'' ''output/voc'' ''images''
               negative_count_lines demo_start) = 1 \<and>
   files (process_step demo_env ''output/yolo'' ''output/voc'' ''images''
               negative_count_lines demo_start)
     ''output/yolo/0--Parade/0_Parade_marchingband_1_849.txt'' = Some (TextFile [])"
proof -
  have 1: "is_image_line (py_strip (negative_count_lines ! 0))" by code_simp
  have 2: "py_int (py_strip (negative_count_lines ! 1)) = Some (- 3)" by code_simp
  have 3: "warnings (process_step demo_env ''output/yolo'' ''output/voc'' ''images''
               negative_count_lines demo_start) = []" by code_simp
  have 4: "index (process_step demo_env ''output/yolo'' ''output/voc'' ''images''
               negative_count_lines demo_start) = 2" by code_simp
  have 5: "yolo_file_count (process_step demo_env ''output/yolo'' ''output/voc'' ''images''
               negative_count_lines demo_start) = 1" by code_simp
  have 6: "voc_file_count (process_step demo_env ''output/yolo'' ''output/voc'' ''images''
               negative_count_lines demo_start) = 1" by code_simp
  have 7: "files (process_step demo_env ''output/yolo'' ''output/voc'' ''images''
               negative_count_lines demo_start)
     ''output/yolo/0--Parade/0_Parade_marchingband_1_849.txt'' = Some (TextFile [])"
    by code_simp
  from 1 2 3 4 5 6 7 show ?thesis by blast
qed

lemma process_image_unreadable:
  "get_image_size e (join idir (normpath img)) = None \<Longrightarrow>
   process_image e oy ov idir img boxes st =
     st\<lparr>warnings := warnings st @
          [ErrorOpeningImage (join idir (normpath img)), SkippingImage img]\<rparr>"
  by (simp add: process_image_def Let_def)

lemma process_loop_step:
  "index st < length lines \<Longrightarrow>
   process_loop e oy ov idir lines st =
     process_loop e oy ov idir lines (process_step e oy ov idir lines st)"
  by (subst process_loop.simps) simp


text \<open>
  Claim C7. When the image of a record cannot be opened, the step of the conversion pass
  writes no file and leaves both counts as they were: it only moves the index past the
  record and logs the failure. The pass is not aborted: it goes on from the state after
  the step like from any other state.
\<close>

theorem process_step_unreadable_image:
  assumes "is_image_line (py_strip (lines ! index st))"
    and "index st + 1 < length lines"
    and "py_int (py_strip (lines ! (index st + 1))) = Some n"
    and "get_image_size e (join idir (normpath (py_strip (lines ! index st)))) = None"
  shows "process_step e oy ov idir lines st =
           st\<lparr>index := record_end lines (index st) n,
              warnings := warnings st @ record_warnings lines (index st) n @
                [ErrorOpeningImage (join idir (normpath (py_strip (lines ! index st)))),
                 SkippingImage (py_strip (lines ! index st))]\<rparr> \<and>
         files (process_step e oy ov idir lines st) = files st \<and>
         yolo_file_count (process_step e oy ov idir lines st) = yolo_file_count st \<and>
         voc_file_count (process_step e oy ov idir lines st) = voc_file_count st \<and>
         process_loop e oy ov idir lines st =
           process_loop e oy ov idir lines (process_step e oy ov idir lines st)"
proof -
  have step: "process_step e oy ov idir lines st =
           st\<lparr>index := record_end lines (index st) n,
              warnings := warnings st @ record_warnings lines (index st) n @
                [ErrorOpeningImage (join idir (normpath (py_strip (lines ! index st)))),
                 SkippingImage (py_strip (lines ! index st))]\<rparr>"
    by (simp add: process_step_record [OF assms(1-3)] process_image_unreadable [OF assms(4)])
  have "index st < length lines"
    using assms(2) by simp
  then have "process_loop e oy ov idir lines st =
           process_loop e oy ov idir lines (process_step e oy ov idir lines st)"
    by (rule process_loop_step)
  moreover have "files (process_step e oy ov idir lines st) = files st"
    and "yolo_file_count (process_step e oy ov idir lines st) = yolo_file_count st"
    and "voc_file_count (process_step e oy ov idir lines st) = voc_file_count st"
    by (simp_all add: step)
  ultimately show ?thesis
    using step by blast
qed

theorem process_step_unreadable_image_witness:
  "is_image_line (py_strip (unreadable_lines ! index demo_start)) \<and>
   index demo_start + 1 < length unreadable_lines \<and>
   py_int (py_strip (unreadable_lines ! (index demo_start + 1))) = Some 1 \<and>
   get_image_size demo_env
     (join ''images'' (normpath (py_strip (unreadable_lines ! index demo_start)))) = None \<and>
   files (process_step demo_env ''output/yolo'' ''output/voc'' ''images'' unreadable_lines
            demo_start) = Map.empty \<and>
   yolo_file_count (process_step demo_env ''output/yolo'' ''output/voc'' ''images''
            unreadable_lines demo_start) = 0 \<and>
   voc_file_count (process_step demo_env ''output/yolo'' ''output/voc'' ''images''
            unreadable_lines demo_start) = 0 \<and>
   yolo_file_count (process_annotations demo_env unreadable_lines ''output/yolo''
            ''output/voc'' ''images'' Map.empty) = 1 \<and>
   voc_file_count (process_annotations demo_env unreadable_lines ''output/yolo''
            ''output/voc'' ''images'' Map.empty) = 1"
proof -
  have h1: "is_image_line (py_strip (unreadable_lines ! index demo_start))"
    by code_simp
  have h2: "index demo_start + 1 < length unreadable_lines"
    by (simp add: demo_start_def unreadable_lines_def)
  have h3: "py_int (py_strip (unreadable_lines ! (index demo_start + 1))) = Some 1"
    by code_simp
  have h4: "get_image_size demo_env
     (join ''images'' (normpath (py_strip (unreadable_lines ! index demo_start)))) = None"
    by code_simp
  note t = process_step_unreadable_image [OF h1 h2 h3 h4, of "''output/yolo''" "''output/voc''"]
  from t have f: "files (process_step demo_env ''output/yolo'' ''output/voc'' ''images''
            unreadable_lines demo_start) = Map.empty"
    by (simp add: demo_start_def)
  from t have y: "yolo_file_count (process_step demo_env ''output/yolo'' ''output/voc''
            ''images'' unreadable_lines demo_start) = 0"
    by (simp add: demo_start_def)
  from t have v: "voc_file_count (process_step demo_env ''output/yolo'' ''output/voc''
            ''images'' unreadable_lines demo_start) = 0"
    by (simp add: demo_start_def)
  have r1: "yolo_file_count (process_annotations demo_env unreadable_lines ''output/yolo''
            ''output/voc'' ''images'' Map.empty) = 1"
    by code_simp
  have r2: "voc_file_count (process_annotations demo_env unreadable_lines ''output/yolo''
            ''output/voc'' ''images'' Map.empty) = 1"
    by code_simp
  from h1 h2 h3 h4 f y v r1 r2 show ?thesis by blast
qed

lemma endswith_join: "endswith (join a b) b"
  by (simp add: join_def endswith_def)

lemma endswith_last: "endswith s (t @ [c]) \<Longrightarrow> last s = c"
proof -
  assume "endswith s (t @ [c])"
  then have "drop (length s - length (t @ [c])) s = t @ [c]" and "s \<noteq> []"
    by (auto simp: endswith_def)
  then have "last (drop (length s - length (t @ [c])) s) = c"
    by simp
  moreover have "length s - length (t @ [c]) < length s"
    using \<open>s \<noteq> []\<close> by simp
  ultimately show "last s = c"
    by (simp add: last_drop)
qed

lemma yolo_path_neq_xml_path: "yolo_output_path oy p \<noteq> xml_output_path ov q"
proof
  assume eq: "yolo_output_path oy p = xml_output_path ov q"
  have "endswith (yolo_output_path oy p) ((fst (splitext p) @ ''.tx'') @ [CHR ''t''])"
    using endswith_join [of oy "fst (splitext p) @ ''.txt''"]
    by (simp add: yolo_output_path_def)
  then have 1: "last (yolo_output_path oy p) = CHR ''t''"
    by (rule endswith_last)
  have "endswith (xml_output_path ov q) ((fst (splitext (basename q)) @ ''.xm'') @ [CHR ''l''])"
    using endswith_join [of ov "fst (splitext (basename q)) @ ''.xml''"]
    by (simp add: xml_output_path_def)
  then have 2: "last (xml_output_path ov q) = CHR ''l''"
    by (rule endswith_last)
  from 1 2 eq show False by simp
qed

lemma process_image_written:
  assumes "get_image_size e (join idir (normpath img)) = Some (w, h)"
    and "can_write e (yolo_output_path oy (normpath img))"
    and "can_write e (xml_output_path ov (normpath img))"
    and "yolo_file_text (arith e) boxes w h = (content, None)"
  shows "process_image e oy ov idir img boxes st =
     st\<lparr>files := (files st)
            (yolo_output_path oy (normpath img) \<mapsto> TextFile content,
             xml_output_path ov (normpath img) \<mapsto>
               XmlFile (voc_annotation (normpath img) w h (fst (voc_objects boxes)) ov)),
        yolo_file_count := yolo_file_count st + 1,
        voc_file_count := voc_file_count st + 1,
        warnings := warnings st @ snd (voc_objects boxes)\<rparr>"
  using assms
  by (simp add: process_image_def save_yolo_def save_voc_def create_voc_xml_def Let_def
        split: prod.splits)

text \<open>
  Claim C8. A record with the count \<open>0\<close> whose image gives its size is a complete record:
  when the two output files can be written, the step writes an empty YOLO file, and a
  VOC document with \<open>folder\<close>, \<open>filename\<close>, \<open>source/database\<close>, \<open>size\<close> and \<open>segmented\<close>
  and no \<open>object\<close>, and counts one file of each kind.
\<close>

theorem process_step_empty_record:
  assumes "is_image_line (py_strip (lines ! index st))"
    and "index st + 1 < length lines"
    and "py_int (py_strip (lines ! (index st + 1))) = Some 0"
    and "get_image_size e (join idir (normpath (py_strip (lines ! index st)))) = Some (w, h)"
    and "can_write e (yolo_output_path oy (normpath (py_strip (lines ! index st))))"
    and "can_write e (xml_output_path ov (normpath (py_strip (lines ! index st))))"
  shows "files (process_step e oy ov idir lines st)
           (yolo_output_path oy (normpath (py_strip (lines ! index st)))) =
           Some (TextFile []) \<and>
         files (process_step e oy ov idir lines st)
           (xml_output_path ov (normpath (py_strip (lines ! index st)))) =
           Some (XmlFile
             (Element ''annotation'' None
                [Element ''folder'' (Some (basename ov)) [],
                 Element ''filename''
                   (Some (basename (normpath (py_strip (lines ! index st))))) [],
                 Element ''source'' None [Element ''database'' (Some ''WIDER Face'') []],
                 Element ''size'' None
                   [Element ''width'' (Some (str_int w)) [],
                    Element ''height'' (Some (str_int h)) [],
                    Element ''depth'' (Some ''3'') []],
                 Element ''segmented'' (Some ''0'') []])) \<and>
         yolo_file_count (process_step e oy ov idir lines st) = yolo_file_count st + 1 \<and>
         voc_file_count (process_step e oy ov idir lines st) = voc_file_count st + 1 \<and>
         index (process_step e oy ov idir lines st) = index st + 2 \<and>
         warnings (process_step e oy ov idir lines st) = warnings st"
proof -
  have t: "yolo_file_text (arith e) [] w h = ([], None)"
    by simp
  have step: "process_step e oy ov idir lines st =
      process_image e oy ov idir (py_strip (lines ! index st)) []
        (st\<lparr>index := index st + 2\<rparr>)"
    by (simp add: process_step_record [OF assms(1-3)] record_negative)
  show ?thesis
    unfolding step process_image_written [OF assms(4-6) t]
    by (simp add: voc_annotation_def yolo_path_neq_xml_path)
qed

theorem process_step_empty_record_witness:
  "is_image_line (py_strip (empty_record_lines ! index demo_start)) \<and>
   index demo_start + 1 < length empty_record_lines \<and>
   py_int (py_strip (empty_record_lines ! (index demo_start + 1))) = Some 0 \<and>
   get_image_size demo_env
     (join ''images'' (normpath (py_strip (empty_record_lines ! index demo_start)))) =
     Some (1024, 683) \<and>
   can_write demo_env
     (yolo_output_path ''output/yolo''
        (normpath (py_strip (empty_record_lines ! index demo_start)))) \<and>
   can_write demo_env
     (xml_output_path ''output/voc''
        (normpath (py_strip (empty_record_lines ! index demo_start)))) \<and>
   files (process_step demo_env ''output/yolo'' ''output/voc'' ''images'' empty_record_lines
            demo_start)
     ''output/yolo/0--Parade/0_Parade_marchingband_1_849.txt'' = Some (TextFile []) \<and>
   files (process_step demo_env ''output/yolo'' ''output/voc'' ''images'' empty_record_lines
            demo_start)
     ''output/voc/0_Parade_marchingband_1_849.xml'' =
     Some (XmlFile
       (Element ''annotation'' None
          [Element ''folder'' (Some ''voc'') [],
           Element ''filename'' (Some ''0_Parade_marchingband_1_849.jpg'') [],
           Element ''source'' None [Element ''database'' (Some ''WIDER Face'') []],
           Element ''size'' None
             [Element ''width'' (Some ''1024'') [],
              Element ''height'' (Some ''683'') [],
              Element ''depth'' (Some ''3'') []],
           Element ''segmented'' (Some ''0'') []]))"
proof -
  have h1: "is_image_line (py_strip (empty_record_lines ! index demo_start))"
    by code_simp
  have h2: "index demo_start + 1 < length empty_record_lines"
    by (simp add: demo_start_def empty_record_lines_def)
  have h3: "py_int (py_strip (empty_record_lines ! (index demo_start + 1))) = Some 0"
    by code_simp
  have h4: "get_image_size demo_env
     (join ''images'' (normpath (py_strip (empty_record_lines ! index demo_start)))) =
     Some (1024, 683)"
    by code_simp
  have h5: "can_write demo_env
     (yolo_output_path ''output/yolo''
        (normpath (py_strip (empty_record_lines ! index demo_start))))"
    by (simp add: demo_env_def)
  have h6: "can_write demo_env
     (xml_output_path ''output/voc''
        (normpath (py_strip (empty_record_lines ! index demo_start))))"
    by (simp add: demo_env_def)
  have p1: "yolo_output_path ''output/yolo''
              (normpath (py_strip (empty_record_lines ! index demo_start))) =
            ''output/yolo/0--Parade/0_Parade_marchingband_1_849.txt''"
    by code_simp
  have p2: "xml_output_path ''output/voc''
              (normpath (py_strip (empty_record_lines ! index demo_start))) =
            ''output/voc/0_Parade_marchingband_1_849.xml''"
    by code_simp
  have p3: "basename ''output/voc'' = ''voc''"
    by code_simp
  have p4: "basename (normpath (py_strip (empty_record_lines ! index demo_start))) =
            ''0_Parade_marchingband_1_849.jpg''"
    by code_simp
  have p5: "str_int 1024 = ''1024''" and p6: "str_int 683 = ''683''"
    by code_simp+
  note t = process_step_empty_record [OF h1 h2 h3 h4 h5 h6,
             unfolded p1 p2 p3 p4 p5 p6]
  from h1 h2 h3 h4 h5 h6 t show ?thesis by blast
qed






lemma rfind_neg: "c \<notin> set s \<Longrightarrow> rfind c s = - 1"
  by (simp add: rfind_def)

lemma length_takeWhile_neq:
  "c \<in> set xs \<Longrightarrow> length (takeWhile (\<lambda>x. x \<noteq> c) xs) < length xs"
  by (induction xs) auto

lemma basename_takeWhile: "basename p = rev (takeWhile (\<lambda>x. x \<noteq> CHR ''/'') (rev p))"
proof (cases "CHR ''/'' \<in> set p")
  case False
  then have tw: "takeWhile (\<lambda>x. x \<noteq> CHR ''/'') (rev p) = rev p"
    by (auto simp: takeWhile_eq_all_conv)
  show ?thesis
    unfolding tw using False by (simp add: basename_def rfind_def)
next
  case True
  let ?k = "length (takeWhile (\<lambda>x. x \<noteq> CHR ''/'') (rev p))"
  have k: "?k < length p"
    using True length_takeWhile_neq [of "CHR ''/''" "rev p"] by simp
  then have "nat (rfind CHR ''/'' p + 1) = length p - ?k"
    using True by (simp add: rfind_def)
  then have "basename p = drop (length p - ?k) p"
    by (simp add: basename_def)
  also have "\<dots> = rev (take ?k (rev p))"
    by (simp add: take_rev)
  also have "take ?k (rev p) = takeWhile (\<lambda>x. x \<noteq> CHR ''/'') (rev p)"
    by (simp add: takeWhile_eq_take [symmetric])
  finally show ?thesis .
qed

lemma basename_no_sep: "CHR ''/'' \<notin> set (basename p)"
  using set_takeWhileD [of "CHR ''/''" "\<lambda>x. x \<noteq> CHR ''/''" "rev p"]
  by (auto simp: basename_takeWhile)

lemma splitext_root_subset: "set (fst (splitext p)) \<subseteq> set p"
  by (auto simp: splitext_def Let_def dest: in_set_takeD)

lemma xml_stem_no_sep: "CHR ''/'' \<notin> set (fst (splitext (basename p)))"
  using splitext_root_subset [of "basename p"] basename_no_sep [of p] by blast

lemma process_image_voc_file:
  assumes "get_image_size e (join idir (normpath img)) = Some (w, h)"
    and "can_write e (xml_output_path ov (normpath img))"
  shows "files (process_image e oy ov idir img boxes st) (xml_output_path ov (normpath img)) =
           Some (XmlFile (voc_annotation (normpath img) w h (fst (voc_objects boxes)) ov)) \<and>
         voc_file_count (process_image e oy ov idir img boxes st) =
           voc_file_count (save_yolo e oy (normpath img) boxes w h st) + 1"
  using assms
  by (simp add: process_image_def save_voc_def create_voc_xml_def Let_def split: prod.splits)

text \<open>
  Claim C3, as amended. For a record whose image gives its size and whose VOC file can be
  written, the document is written to the output directory joined with the stem of the
  last component of the image path and \<open>.xml\<close>: the name has no separator, so the
  directories of the image path are not kept. What was at that path before is replaced.
\<close>

theorem process_step_voc_path:
  assumes "is_image_line (py_strip (lines ! index st))"
    and "index st + 1 < length lines"
    and "py_int (py_strip (lines ! (index st + 1))) = Some n"
    and "get_image_size e (join idir (normpath (py_strip (lines ! index st)))) = Some (w, h)"
    and "can_write e (xml_output_path ov (normpath (py_strip (lines ! index st))))"
  shows "files (process_step e oy ov idir lines st)
           (join ov (fst (splitext (basename (normpath (py_strip (lines ! index st))))) @
                     ''.xml'')) =
           Some (XmlFile
             (voc_annotation (normpath (py_strip (lines ! index st))) w h
                (fst (voc_objects (record_boxes lines (index st) n))) ov)) \<and>
         CHR ''/'' \<notin> set (fst (splitext (basename (normpath (py_strip (lines ! index st))))))"
  using process_image_voc_file [OF assms(4,5)]
  by (simp add: process_step_record [OF assms(1-3)] xml_output_path_def xml_stem_no_sep)

theorem process_step_voc_path_witness:
  "is_image_line (py_strip (parade_lines ! index demo_start)) \<and>
   index demo_start + 1 < length parade_lines \<and>
   py_int (py_strip (parade_lines ! (index demo_start + 1))) = Some 1 \<and>
   get_image_size demo_env
     (join ''images'' (normpath (py_strip (parade_lines ! index demo_start)))) =
     Some (1024, 683) \<and>
   can_write demo_env
     (xml_output_path ''output/voc'' (normpath (py_strip (parade_lines ! index demo_start)))) \<and>
   files (process_step demo_env ''output/yolo'' ''output/voc'' ''images'' parade_lines
            demo_start)
     ''output/voc/0_Parade_marchingband_1_849.xml'' =
     Some (XmlFile
       (Element ''annotation'' None
          [Element ''folder'' (Some ''voc'') [],
           Element ''filename'' (Some ''0_Parade_marchingband_1_849.jpg'') [],
           Element ''source'' None [Element ''database'' (Some ''WIDER Face'') []],
           Element ''size'' None
             [Element ''width'' (Some ''1024'') [],
              Element ''height'' (Some ''683'') [],
              Element ''depth'' (Some ''3'') []],
           Element ''segmented'' (Some ''0'') [],
           Element ''object'' None
             [Element ''name'' (Some ''face'') [],
              Element ''pose'' (Some ''Unspecified'') [],
              Element ''truncated'' (Some ''0'') [],
              Element ''difficult'' (Some ''0'') [],
              Element ''bndbox'' None
                [Element ''xmin'' (Some ''449'') [],
                 Element ''ymin'' (Some ''330'') [],
                 Element ''xmax'' (Some ''571'') [],
                 Element ''ymax'' (Some ''479'') []]]]))"
proof -
  have h1: "is_image_line (py_strip (parade_lines ! index demo_start))"
    by code_simp
  have h2: "index demo_start + 1 < length parade_lines"
    by (simp add: demo_start_def parade_lines_def)
  have h3: "py_int (py_strip (parade_lines ! (index demo_start + 1))) = Some 1"
    by code_simp
  have h4: "get_image_size demo_env
     (join ''images'' (normpath (py_strip (parade_lines ! index demo_start)))) =
     Some (1024, 683)"
    by code_simp
  have h5: "can_write demo_env
     (xml_output_path ''output/voc'' (normpath (py_strip (parade_lines ! index demo_start))))"
    by (simp add: demo_env_def)
  have p: "join ''output/voc''
             (fst (splitext (basename (normpath (py_strip (parade_lines ! index demo_start))))) @
              ''.xml'') = ''output/voc/0_Parade_marchingband_1_849.xml''"
    by code_simp
  have d: "voc_annotation (normpath (py_strip (parade_lines ! index demo_start))) 1024 683
             (fst (voc_objects (record_boxes parade_lines (index demo_start) 1))) ''output/voc'' =
       Element ''annotation'' None
          [Element ''folder'' (Some ''voc'') [],
           Element ''filename'' (Some ''0_Parade_marchingband_1_849.jpg'') [],
           Element ''source'' None [Element ''database'' (Some ''WIDER Face'') []],
           Element ''size'' None
             [Element ''width'' (Some ''1024'') [],
              Element ''height'' (Some ''683'') [],
              Element ''depth'' (Some ''3'') []],
           Element ''segmented'' (Some ''0'') [],
           Element ''object'' None
             [Element ''name'' (Some ''face'') [],
              Element ''pose'' (Some ''Unspecified'') [],
              Element ''truncated'' (Some ''0'') [],
              Element ''difficult'' (Some ''0'') [],
              Element ''bndbox'' None
                [Element ''xmin'' (Some ''449'') [],
                 Element ''ymin'' (Some ''330'') [],
                 Element ''xmax'' (Some ''571'') [],
                 Element ''ymax'' (Some ''479'') []]]]"
    by code_simp
  note t = process_step_voc_path [OF h1 h2 h3 h4 h5, of "''output/yolo''", unfolded p d]
  from h1 h2 h3 h4 h5 t show ?thesis by blast
qed

text \<open>
  The claim as stated fails for an image in a subdirectory: the record is converted, no
  file is at the path that keeps the subdirectory, and the document is in the output
  directory itself.
\<close>

theorem process_step_voc_path_counterexample:
  "voc_path_spec ''output/voc'' (py_strip (parade_lines ! 0)) =
     ''output/voc/0--Parade/0_Parade_marchingband_1_849.xml'' \<and>
   voc_file_count (process_step demo_env ''output/yolo'' ''output/voc'' ''images''
                     parade_lines demo_start) = 1 \<and>
   files (process_step demo_env ''output/yolo'' ''output/voc'' ''images'' parade_lines
            demo_start)
     (voc_path_spec ''output/voc'' (py_strip (parade_lines ! 0))) = None \<and>
   files (process_step demo_env ''output/yolo'' ''output/voc'' ''images'' parade_lines
            demo_start)
     ''output/voc/0_Parade_marchingband_1_849.xml'' \<noteq> None \<and>
   files (process_step demo_env ''output/yolo'' ''output/voc'' ''images'' parade_lines
            demo_start)
     ''output/yolo/0--Parade/0_Parade_marchingband_1_849.txt'' =
     Some (TextFile (''0 255/512 809/1366 61/512 149/683'' @ [CHR 0x0A]))"
proof -
  have 1: "voc_path_spec ''output/voc'' (py_strip (parade_lines ! 0)) =
     ''output/voc/0--Parade/0_Parade_marchingband_1_849.xml''"
    by code_simp
  have 2: "voc_file_count (process_step demo_env ''output/yolo'' ''output/voc'' ''images''
                     parade_lines demo_start) = 1"
    by code_simp
  have 3: "files (process_step demo_env ''output/yolo'' ''output/voc'' ''images'' parade_lines
            demo_start)
     ''output/voc/0--Parade/0_Parade_marchingband_1_849.xml'' = None"
    by code_simp
  have 4: "files (process_step demo_env ''output/yolo'' ''output/voc'' ''images'' parade_lines
            demo_start)
     ''output/voc/0_Parade_marchingband_1_849.xml'' \<noteq> None"
    by code_simp
  have 5: "files (process_step demo_env ''output/yolo'' ''output/voc'' ''images'' parade_lines
            demo_start)
     ''output/yolo/0--Parade/0_Parade_marchingband_1_849.txt'' =
     Some (TextFile (''0 255/512 809/1366 61/512 149/683'' @ [CHR 0x0A]))"
    by code_simp
  from 1 2 3 4 5 show ?thesis by simp
qed

section \<open>The filter pass: claims C5 and C10\<close>










text \<open>
  Claim C10. In the filter pass, when the image of a record exists and the line after the
  image line is no integer, the step appends the image line alone to the output, logs a
  warning and moves past the two lines; the processed count and the list of missing
  images stay as they were.
\<close>

theorem filter_step_bad_count:
  assumes "0 \<le> f_index st" and "f_index st + 1 < int (length lines)"
    and "is_image_line (py_strip (lines ! nat (f_index st)))"
    and "pe (normpath (join idir (py_strip (lines ! nat (f_index st)))))"
    and "py_int (py_strip (lines ! nat (f_index st + 1))) = None"
  shows "filter_step pe idir lines st =
           Inr (st\<lparr>f_index := f_index st + 2,
                   filtered_lines := filtered_lines st @
                     [py_strip (lines ! nat (f_index st)) @ [CHR 0x0A]],
                   f_warnings := f_warnings st @
                     [ExpectedNumber (py_strip (lines ! nat (f_index st)))
                        (py_strip (lines ! nat (f_index st + 1)))]\<rparr>)"
proof -
  have g0: "py_get lines (f_index st) = Some (lines ! nat (f_index st))"
    using assms(1,2) by (simp add: py_get_def)
  have g1: "py_get lines (f_index st + 1) = Some (lines ! nat (f_index st + 1))"
    using assms(1,2) by (simp add: py_get_def)
  show ?thesis
    using assms(2-5) by (simp add: filter_step_def g0 g1 Let_def)
qed

theorem filter_step_bad_count_witness:
  "0 \<le> f_index filter_start \<and>
   f_index filter_start + 1 < int (length bad_filter_lines) \<and>
   is_image_line (py_strip (bad_filter_lines ! nat (f_index filter_start))) \<and>
   demo_exists (normpath (join ''images''
                  (py_strip (bad_filter_lines ! nat (f_index filter_start))))) \<and>
   py_int (py_strip (bad_filter_lines ! nat (f_index filter_start + 1))) = None \<and>
   filter_step demo_exists ''images'' bad_filter_lines filter_start =
     Inr \<lparr>f_index = 2,
          filtered_lines = [''0--Parade/0_Parade_marchingband_1_849.jpg\<newline>''],
          missing_images = [],
          processed_images = 0,
          f_warnings = [ExpectedNumber ''0--Parade/0_Parade_marchingband_1_849.jpg'' ''x'']\<rparr> \<and>
   filter_annotations demo_exists bad_filter_lines ''images'' =
     Some (Inr \<lparr>f_index = 4,
                 filtered_lines = [''0--Parade/0_Parade_marchingband_1_849.jpg\<newline>''],
                 missing_images = [''b.jpg''],
                 processed_images = 0,
                 f_warnings =
                   [ExpectedNumber ''0--Parade/0_Parade_marchingband_1_849.jpg'' ''x'']\<rparr>)"
proof -
  have h1: "0 \<le> f_index filter_start"
    by (simp add: filter_start_def)
  have h2: "f_index filter_start + 1 < int (length bad_filter_lines)"
    by (simp add: filter_start_def bad_filter_lines_def)
  have h3: "is_image_line (py_strip (bad_filter_lines ! nat (f_index filter_start)))"
    by code_simp
  have h4: "demo_exists (normpath (join ''images''
                  (py_strip (bad_filter_lines ! nat (f_index filter_start)))))"
    by code_simp
  have h5: "py_int (py_strip (bad_filter_lines ! nat (f_index filter_start + 1))) = None"
    by code_simp
  have s0: "py_strip (bad_filter_lines ! nat (f_index filter_start)) =
            ''0--Parade/0_Parade_marchingband_1_849.jpg''"
    by code_simp
  have s1: "py_strip (bad_filter_lines ! nat (f_index filter_start + 1)) = ''x''"
    by code_simp
  have c1: "filter_step demo_exists ''images'' bad_filter_lines filter_start =
     Inr \<lparr>f_index = 2,
          filtered_lines = [''0--Parade/0_Parade_marchingband_1_849.jpg\<newline>''],
          missing_images = [],
          processed_images = 0,
          f_warnings = [ExpectedNumber ''0--Parade/0_Parade_marchingband_1_849.jpg'' ''x'']\<rparr>"
    using filter_step_bad_count [where st = filter_start and lines = bad_filter_lines
            and pe = demo_exists and idir = "''images''", OF h1 h2 h3 h4 h5, unfolded s0 s1]
    by (simp add: filter_start_def)
  have c2: "filter_annotations demo_exists bad_filter_lines ''images'' =
     Some (Inr \<lparr>f_index = 4,
                 filtered_lines = [''0--Parade/0_Parade_marchingband_1_849.jpg\<newline>''],
                 missing_images = [''b.jpg''],
                 processed_images = 0,
                 f_warnings =
                   [ExpectedNumber ''0--Parade/0_Parade_marchingband_1_849.jpg'' ''x'']\<rparr>)"
    by code_simp
  from h1 h2 h3 h4 h5 c1 c2 show ?thesis by blast
qed

text \<open>
  Why the loop of the filter pass is a partial function: for a missing image followed by
  the count \<open>-2\<close>, the step leaves the index on the image line, with the image added to
  the missing ones once more.
\<close>

lemma filter_step_backwards:
  "filter_step demo_exists ''images'' [''b.jpg\<newline>'', ''-2\<newline>''] filter_start =
     Inr \<lparr>f_index = 0, filtered_lines = [], missing_images = [''b.jpg''],
          processed_images = 0, f_warnings = []\<rparr>"
  by code_simp

end
